theory Spec2Isabelle
  imports Main "HOL-Library.Word"
begin


section \<open>Path sanitizer\<close>

text \<open>
  The optional session name is a JavaScript string as it is: the list of its UTF-16
  code units. \<open>units\<close> gives the code units of a string of characters below 256, and
  \<open>chars\<close> the characters of code units below 256.
\<close>

type_synonym jsstring = "16 word list"

definition units :: "string \<Rightarrow> jsstring" where
  "units s = map (\<lambda>c. of_nat (of_char c)) s"

definition chars :: "jsstring \<Rightarrow> string" where
  "chars us = map (\<lambda>u. char_of (unat u)) us"

text \<open>
  The white space of \<open>String.prototype.trim\<close> and of the regular expression class \<open>\s\<close>:
  TAB, LF, VT, FF, CR, SPACE, NBSP, U+1680, U+2000 to U+200A, U+2028, U+2029, U+202F,
  U+205F, U+3000 and U+FEFF.
\<close>

definition is_space :: "16 word \<Rightarrow> bool" where
  "is_space u =
     (let n = unat u
      in n \<in> {9, 10, 11, 12, 13, 32, 160, 5760, 8232, 8233, 8239, 8287, 12288, 65279}
         \<or> (8192 \<le> n \<and> n \<le> 8202))"

text \<open>The class \<open>[A-Za-z0-9_]\<close>, of a code unit and of a character.\<close>

definition is_word_unit :: "16 word \<Rightarrow> bool" where
  "is_word_unit u =
     (let n = unat u
      in (65 \<le> n \<and> n \<le> 90) \<or> (97 \<le> n \<and> n \<le> 122) \<or> (48 \<le> n \<and> n \<le> 57) \<or> n = 95)"

definition is_word_char :: "char \<Rightarrow> bool" where
  "is_word_char c =
     (let n = (of_char c :: nat)
      in (65 \<le> n \<and> n \<le> 90) \<or> (97 \<le> n \<and> n \<le> 122) \<or> (48 \<le> n \<and> n \<le> 57) \<or> n = 95)"

definition trim :: "jsstring \<Rightarrow> jsstring" where
  "trim s = rev (dropWhile is_space (rev (dropWhile is_space s)))"

text \<open>\<open>base.replace(/\s+/g, '_')\<close>: every maximal run of white space becomes one underscore.\<close>

function replace_space_runs :: "jsstring \<Rightarrow> jsstring" where
  "replace_space_runs [] = []"
| "replace_space_runs (u # us) =
     (if is_space u then 95 # replace_space_runs (dropWhile is_space us)
      else u # replace_space_runs us)"
  by pat_completeness auto
termination
  by (relation "measure length") (auto simp: length_dropWhile_le less_Suc_eq_le)

text \<open>
  \<open>sanitizeName\<close>; the optional parameter is an \<open>option\<close>, and \<open>x || 'auth'\<close> on a
  string \<open>x\<close> takes \<open>'auth'\<close> exactly when \<open>x\<close> is empty. What it returns holds code
  units of \<open>[A-Za-z0-9_]\<close> only, and is given as the string of those characters.
\<close>

definition sanitizeName :: "jsstring option \<Rightarrow> string" where
  "sanitizeName input =
     (let base = (case input of
                    None \<Rightarrow> units ''auth''
                  | Some s \<Rightarrow> if trim s = [] then units ''auth'' else trim s);
          base = replace_space_runs base;
          base = filter is_word_unit base;
          base = (if length base > 8 then take 8 base else base)
      in chars (if base = [] then units ''auth'' else base))"

text \<open>\<open>s.replace(/c/g, r)\<close> for a single character \<open>c\<close>.\<close>

definition replace_char :: "char \<Rightarrow> string \<Rightarrow> string \<Rightarrow> string" where
  "replace_char c r s = concat (map (\<lambda>x. if x = c then r else [x]) s)"

definition fixFileName :: "string \<Rightarrow> string" where
  "fixFileName file = replace_char CHR '':'' ''-'' (replace_char CHR ''/'' ''__'' file)"


section \<open>Values and errors\<close>

text \<open>
  From here on a JavaScript string is a \<open>string\<close>, a \<open>char\<close> standing for a UTF-16 code
  unit below 256.
  The values the store handles (\<open>data: any\<close>). Numbers are modelled on the integers:
  the text of a number that is not an integer is a floating-point conversion and is
  not part of the model. An object is the list of its own enumerable properties in
  enumeration order; a \<open>Buffer\<close> is its bytes.
\<close>

datatype jsval =
    JUndefined
  | JNull
  | JBool bool
  | JNum int
  | JStr string
  | JArr "jsval list"
  | JObj "(string \<times> jsval) list"
  | JBuf "8 word list"

text \<open>ToBoolean, as used by \<open>||\<close>, \<open>&&\<close> and \<open>? :\<close>.\<close>

fun truthy :: "jsval \<Rightarrow> bool" where
  "truthy JUndefined = False"
| "truthy JNull = False"
| "truthy (JBool b) = b"
| "truthy (JNum n) = (n \<noteq> 0)"
| "truthy (JStr s) = (s \<noteq> [])"
| "truthy (JArr xs) = True"
| "truthy (JObj kvs) = True"
| "truthy (JBuf bs) = True"

datatype fs_error = ENOENT | EACCES | EISDIR | ENOTDIR | EEXIST

datatype js_error = FsError fs_error | SyntaxError | TypeError | Error string

section \<open>The filesystem\<close>

text \<open>
  A path is the list of its segments below the root, the form \<open>path.join\<close> and the
  kernel resolve a path string to. A node is a directory or a regular file; \<open>Denied\<close>
  on a directory refuses the creation and removal of its entries, on a file the
  reading and writing of its content.
\<close>

type_synonym path = "string list"

datatype access = Permitted | Denied

datatype node = Dir access | File access string

type_synonym filesystem = "path \<rightharpoonup> node"

text \<open>
  An asynchronous operation, run to completion: it takes the filesystem and returns
  its outcome (\<open>Inl\<close> a rejection, \<open>Inr\<close> the value) with the filesystem it leaves.
\<close>

type_synonym 'a io = "filesystem \<Rightarrow> (js_error + 'a) \<times> filesystem"

text \<open>
  \<open>path.join(folder, name)\<close> for a \<open>name\<close> without separator: one more segment, unless
  the name is empty or a dot segment.
\<close>

definition join :: "path \<Rightarrow> string \<Rightarrow> path" where
  "join folder name =
     (if name = [] \<or> name = ''.'' then folder
      else if name = ''..'' then butlast folder
      else folder @ [name])"

text \<open>The path as a string, for the error message, which shows the folder.\<close>

definition path_string :: "path \<Rightarrow> string" where
  "path_string p = concat (map (\<lambda>seg. CHR ''/'' # seg) p)"

definition stat :: "path \<Rightarrow> node io" where
  "stat p fs = (case fs p of None \<Rightarrow> (Inl (FsError ENOENT), fs) | Some n \<Rightarrow> (Inr n, fs))"

fun isDirectory :: "node \<Rightarrow> bool" where
  "isDirectory (Dir a) = True"
| "isDirectory (File a s) = False"

definition readFile :: "path \<Rightarrow> string io" where
  "readFile p fs =
     (case fs p of
        None \<Rightarrow> (Inl (FsError ENOENT), fs)
      | Some (Dir a) \<Rightarrow> (Inl (FsError EISDIR), fs)
      | Some (File Denied s) \<Rightarrow> (Inl (FsError EACCES), fs)
      | Some (File Permitted s) \<Rightarrow> (Inr s, fs))"

definition writeFile :: "path \<Rightarrow> string \<Rightarrow> unit io" where
  "writeFile p s fs =
     (case fs p of
        Some (Dir a) \<Rightarrow> (Inl (FsError EISDIR), fs)
      | Some (File Denied old) \<Rightarrow> (Inl (FsError EACCES), fs)
      | Some (File Permitted old) \<Rightarrow> (Inr (), fs(p \<mapsto> File Permitted s))
      | None \<Rightarrow>
          (case fs (butlast p) of
             None \<Rightarrow> (Inl (FsError ENOENT), fs)
           | Some (File a old) \<Rightarrow> (Inl (FsError ENOTDIR), fs)
           | Some (Dir Denied) \<Rightarrow> (Inl (FsError EACCES), fs)
           | Some (Dir Permitted) \<Rightarrow> (Inr (), fs(p \<mapsto> File Permitted s))))"

definition unlink :: "path \<Rightarrow> unit io" where
  "unlink p fs =
     (case fs p of
        None \<Rightarrow> (Inl (FsError ENOENT), fs)
      | Some (Dir a) \<Rightarrow> (Inl (FsError EISDIR), fs)
      | Some (File a old) \<Rightarrow>
          (case fs (butlast p) of
             None \<Rightarrow> (Inl (FsError ENOENT), fs)
           | Some (File b x) \<Rightarrow> (Inl (FsError ENOTDIR), fs)
           | Some (Dir Denied) \<Rightarrow> (Inl (FsError EACCES), fs)
           | Some (Dir Permitted) \<Rightarrow> (Inr (), fs(p := None))))"

text \<open>
  \<open>mkdir(p, {recursive: true})\<close>: walks the segments from \<open>base\<close> down, keeps the
  directories it finds and creates the missing ones.
\<close>

fun mkdirs :: "path \<Rightarrow> string list \<Rightarrow> unit io" where
  "mkdirs base [] fs = (Inr (), fs)"
| "mkdirs base (seg # segs) fs =
     (let p = base @ [seg]
      in case fs p of
           Some (Dir a) \<Rightarrow> mkdirs p segs fs
         | Some (File a s) \<Rightarrow> (Inl (FsError (if segs = [] then EEXIST else ENOTDIR)), fs)
         | None \<Rightarrow>
             (case fs base of
                None \<Rightarrow> (Inl (FsError ENOENT), fs)
              | Some (File a s) \<Rightarrow> (Inl (FsError ENOTDIR), fs)
              | Some (Dir Denied) \<Rightarrow> (Inl (FsError EACCES), fs)
              | Some (Dir Permitted) \<Rightarrow> mkdirs p segs (fs(p \<mapsto> Dir Permitted))))"

definition mkdir_recursive :: "path \<Rightarrow> unit io" where
  "mkdir_recursive p = mkdirs [] p"

section \<open>The record store\<close>

text \<open>
  What the module takes from elsewhere, as parameters: \<open>JSON.stringify(\<cdot>, BufferJSON.replacer)\<close>
  (a text, \<open>undefined\<close>, or an exception), \<open>JSON.parse(\<cdot>, BufferJSON.reviver)\<close>,
  \<open>initAuthCreds()\<close> and \<open>proto.Message.AppStateSyncKeyData.fromObject\<close>. The calls of
  \<open>fs/promises\<close> and \<open>path.join\<close> are those of the section above.
\<close>

record externals =
  JSON_stringify :: "jsval \<Rightarrow> js_error + string option"
  JSON_parse :: "string \<Rightarrow> js_error + jsval"
  initAuthCreds :: jsval
  fromObject :: "jsval \<Rightarrow> js_error + jsval"

text \<open>\<open>try { m } catch { h }\<close> around an asynchronous body.\<close>

definition try_catch :: "'a io \<Rightarrow> 'a io \<Rightarrow> 'a io" where
  "try_catch m h fs = (case m fs of (Inl e, fs') \<Rightarrow> h fs' | (Inr v, fs') \<Rightarrow> (Inr v, fs'))"

definition resolve :: "'a \<Rightarrow> 'a io" where
  "resolve v fs = (Inr v, fs)"

text \<open>Modelled from the spec: \<open>getFileLock\<close>, which the module calls and does not define;
  it "returns a reusable mutual-exclusion handle for the given normalized path", whose
  \<open>acquire\<close> "suspends the caller until the lock is free". The code is
  \<open>mutex.acquire().then(async release => { try { body } finally { release() } })\<close>.
  In a run where operations do not overlap the lock is free when it is asked for,
  and it is free again when the body has ended either way: the body runs as it is.
\<close>

definition with_lock :: "path \<Rightarrow> 'a io \<Rightarrow> 'a io" where
  "with_lock filePath body = body"

definition writeData :: "externals \<Rightarrow> path \<Rightarrow> jsval \<Rightarrow> string \<Rightarrow> unit io" where
  "writeData ext folder data file =
     (let filePath = join folder (fixFileName file)
      in with_lock filePath
           (\<lambda>fs. case JSON_stringify ext data of
                   Inl e \<Rightarrow> (Inl e, fs)
                 | Inr None \<Rightarrow> (Inl TypeError, fs)
                 | Inr (Some text) \<Rightarrow> writeFile filePath text fs))"

definition readData :: "externals \<Rightarrow> path \<Rightarrow> string \<Rightarrow> jsval io" where
  "readData ext folder file =
     try_catch
       (let filePath = join folder (fixFileName file)
        in with_lock filePath
             (\<lambda>fs. case readFile filePath fs of
                     (Inl e, fs') \<Rightarrow> (Inl e, fs')
                   | (Inr data, fs') \<Rightarrow> (JSON_parse ext data, fs')))
       (resolve JNull)"

definition removeData :: "externals \<Rightarrow> path \<Rightarrow> string \<Rightarrow> unit io" where
  "removeData ext folder file =
     try_catch
       (let filePath = join folder (fixFileName file)
        in with_lock filePath (try_catch (unlink filePath) (resolve ())))
       (resolve ())"

section \<open>The session state\<close>

text \<open>
  What \<open>useMultiFileAuthState\<close> returns: the credentials, and the closures \<open>get\<close>,
  \<open>set\<close> and \<open>saveCreds\<close>, which are functions of the folder and of the name of the
  credential file.
\<close>

record auth_state =
  creds :: jsval
  credFileName :: string

definition useMultiFileAuthState :: "externals \<Rightarrow> path \<Rightarrow> jsstring option \<Rightarrow> auth_state io" where
  "useMultiFileAuthState ext folder name fs =
     (let baseName = sanitizeName name;
          credFile = baseName @ ''.json'';
          load = (\<lambda>fs. case readData ext folder credFile fs of
                         (Inl e, fs') \<Rightarrow> (Inl e, fs')
                       | (Inr v, fs') \<Rightarrow>
                           (Inr \<lparr>creds = (if truthy v then v else initAuthCreds ext),
                                 credFileName = credFile\<rparr>, fs'))
      in case try_catch (\<lambda>fs. case stat folder fs of
                                 (Inl e, fs') \<Rightarrow> (Inl e, fs')
                               | (Inr info, fs') \<Rightarrow> (Inr (Some info), fs'))
                        (resolve None) fs of
           (Inl e, fs') \<Rightarrow> (Inl e, fs')
         | (Inr (Some folderInfo), fs') \<Rightarrow>
             if \<not> isDirectory folderInfo
             then (Inl (Error (''Found non-directory at '' @ path_string folder
                               @ '', delete or specify a different location.'')), fs')
             else load fs'
         | (Inr None, fs') \<Rightarrow>
             (case mkdir_recursive folder fs' of
                (Inl e, fs'') \<Rightarrow> (Inl e, fs'')
              | (Inr u, fs'') \<Rightarrow> load fs''))"

text \<open>
  The state a fulfilled \<open>useMultiFileAuthState\<close> returns when it loads from the
  filesystem \<open>fs\<close>.
\<close>

definition load_creds :: "externals \<Rightarrow> path \<Rightarrow> jsstring option \<Rightarrow> filesystem \<Rightarrow> auth_state" where
  "load_creds ext folder name fs =
     \<lparr>creds = (case fst (readData ext folder (sanitizeName name @ ''.json'') fs) of
                 Inl e \<Rightarrow> initAuthCreds ext
               | Inr v \<Rightarrow> if truthy v then v else initAuthCreds ext),
      credFileName = sanitizeName name @ ''.json''\<rparr>"

text \<open>
  \<open>data[id] = value\<close> on an object made by \<open>{}\<close>: an own property, except for the key
  \<open>__proto__\<close>, which is the accessor inherited from \<open>Object.prototype\<close> and leaves the
  own properties as they are.
\<close>

definition obj_set :: "(string \<rightharpoonup> jsval) \<Rightarrow> string \<Rightarrow> jsval \<Rightarrow> (string \<rightharpoonup> jsval)" where
  "obj_set data k v = (if k = ''__proto__'' then data else data(k \<mapsto> v))"

text \<open>
  \<open>keys.get\<close>: one read for each id, in the order of \<open>ids\<close>; the reads leave the
  filesystem as it is, so the order they end in does not show in \<open>data\<close>.
\<close>

fun get_each :: "externals \<Rightarrow> path \<Rightarrow> string \<Rightarrow> string list \<Rightarrow> (string \<rightharpoonup> jsval)
    \<Rightarrow> (string \<rightharpoonup> jsval) io" where
  "get_each ext folder type [] data fs = (Inr data, fs)"
| "get_each ext folder type (id' # ids) data fs =
     (case readData ext folder (type @ ''-'' @ id' @ ''.json'') fs of
        (Inl e, fs') \<Rightarrow> (Inl e, fs')
      | (Inr value, fs') \<Rightarrow>
          if type = ''app-state-sync-key'' \<and> truthy value
          then (case fromObject ext value of
                  Inl e \<Rightarrow> (Inl e, fs')
                | Inr value' \<Rightarrow> get_each ext folder type ids (obj_set data id' value') fs')
          else get_each ext folder type ids (obj_set data id' value) fs')"

definition keys_get :: "externals \<Rightarrow> path \<Rightarrow> string \<Rightarrow> string list \<Rightarrow> (string \<rightharpoonup> jsval) io" where
  "keys_get ext folder type ids = get_each ext folder type ids Map.empty"

text \<open>
  \<open>keys.set\<close>. \<open>data\<close> is the list of the categories, each with the list of its ids
  and values, in the order the two \<open>for ... in\<close> loops enumerate them; each iteration
  pushes one task.
\<close>

datatype task = WriteTask jsval string | RemoveTask string

definition push_entry :: "string \<Rightarrow> task list \<Rightarrow> string \<times> jsval \<Rightarrow> task list" where
  "push_entry category tasks entry =
     (case entry of (id', value) \<Rightarrow>
        let file = category @ ''-'' @ id' @ ''.json''
        in tasks @ [if truthy value then WriteTask value file else RemoveTask file])"

definition push_category :: "task list \<Rightarrow> string \<times> (string \<times> jsval) list \<Rightarrow> task list" where
  "push_category tasks c = (case c of (category, entries) \<Rightarrow> foldl (push_entry category) tasks entries)"

definition set_tasks :: "(string \<times> (string \<times> jsval) list) list \<Rightarrow> task list" where
  "set_tasks data = foldl push_category [] data"

fun run_task :: "externals \<Rightarrow> path \<Rightarrow> task \<Rightarrow> unit io" where
  "run_task ext folder (WriteTask value file) = writeData ext folder value file"
| "run_task ext folder (RemoveTask file) = removeData ext folder file"

text \<open>
  The tasks of one call, each run to its end in the order they were pushed; tasks on
  one path are granted the lock in that order. The outcomes are kept in that order.
\<close>

fun run_tasks :: "externals \<Rightarrow> path \<Rightarrow> task list \<Rightarrow> filesystem
    \<Rightarrow> (js_error + unit) list \<times> filesystem" where
  "run_tasks ext folder [] fs = ([], fs)"
| "run_tasks ext folder (t # ts) fs =
     (case run_task ext folder t fs of
        (r, fs') \<Rightarrow> (case run_tasks ext folder ts fs' of (rs, fs'') \<Rightarrow> (r # rs, fs'')))"

text \<open>\<open>await Promise.all(tasks)\<close>: fulfilled when every task is, rejected with a rejection of one of them.\<close>

fun promise_all :: "(js_error + unit) list \<Rightarrow> js_error + unit" where
  "promise_all [] = Inr ()"
| "promise_all (Inl e # rs) = Inl e"
| "promise_all (Inr u # rs) = promise_all rs"

definition keys_set :: "externals \<Rightarrow> path \<Rightarrow> (string \<times> (string \<times> jsval) list) list \<Rightarrow> unit io" where
  "keys_set ext folder data fs =
     (case run_tasks ext folder (set_tasks data) fs of (rs, fs') \<Rightarrow> (promise_all rs, fs'))"

definition saveCreds :: "externals \<Rightarrow> path \<Rightarrow> auth_state \<Rightarrow> unit io" where
  "saveCreds ext folder st = writeData ext folder (creds st) (credFileName st)"

section \<open>JSON text\<close>

text \<open>
  The text the language's \<open>JSON.stringify\<close> writes and \<open>JSON.parse\<close> reads. An integer is written
  in decimal digits. A string is written between double quotes, with \<open>"\<close> and \<open>\\<close>
  escaped, the control characters written \<open>\b\<close>, \<open>\t\<close>, \<open>\n\<close>, \<open>\f\<close>, \<open>\r\<close> or
  \<open>\u00XX\<close>, and every other character as it is. The parser follows the JSON grammar:
  white space between tokens, no leading zero, the escapes of the grammar, no control
  character inside a string. Two forms of the grammar have no value in this model and
  are refused here: a number with a fraction or an exponent, and a \<open>\u\<close> escape of a
  code unit above 255.
\<close>

definition digit_char :: "nat \<Rightarrow> char" where
  "digit_char d = char_of (48 + d)"

definition is_digit :: "char \<Rightarrow> bool" where
  "is_digit c = (let n = (of_char c :: nat) in 48 \<le> n \<and> n \<le> 57)"

definition digit_val :: "char \<Rightarrow> nat" where
  "digit_val c = of_char c - 48"

function show_nat :: "nat \<Rightarrow> string" where
  "show_nat n = (if n < 10 then [digit_char n] else show_nat (n div 10) @ [digit_char (n mod 10)])"
  by pat_completeness auto
termination
  by (relation "measure id") auto

declare show_nat.simps [simp del]

definition show_int :: "int \<Rightarrow> string" where
  "show_int i = (if i < 0 then CHR ''-'' # show_nat (nat (- i)) else show_nat (nat i))"

definition read_nat :: "string \<Rightarrow> nat" where
  "read_nat ds = foldl (\<lambda>a c. 10 * a + digit_val c) 0 ds"

definition parse_number :: "string \<Rightarrow> (jsval \<times> string) option" where
  "parse_number s =
     (let neg = (s \<noteq> [] \<and> hd s = CHR ''-'');
          s1 = (if neg then tl s else s);
          ds = takeWhile is_digit s1;
          rest = dropWhile is_digit s1
      in if ds = [] then None
         else if hd ds = CHR ''0'' \<and> length ds > 1 then None
         else if rest \<noteq> [] \<and> hd rest \<in> {CHR ''.'', CHR ''e'', CHR ''E''} then None
         else Some (JNum (if neg then - int (read_nat ds) else int (read_nat ds)), rest))"

definition hex_digit :: "nat \<Rightarrow> char" where
  "hex_digit d = (if d < 10 then char_of (48 + d) else char_of (87 + d))"

definition hex_val :: "char \<Rightarrow> nat option" where
  "hex_val c =
     (let n = (of_char c :: nat)
      in if 48 \<le> n \<and> n \<le> 57 then Some (n - 48)
         else if 97 \<le> n \<and> n \<le> 102 then Some (n - 87)
         else if 65 \<le> n \<and> n \<le> 70 then Some (n - 55)
         else None)"

definition escape_char :: "char \<Rightarrow> string" where
  "escape_char c =
     (let n = (of_char c :: nat)
      in if c = CHR 0x22 then [CHR 0x5C, CHR 0x22]
         else if c = CHR 0x5C then [CHR 0x5C, CHR 0x5C]
         else if n = 8 then [CHR 0x5C, CHR ''b'']
         else if n = 9 then [CHR 0x5C, CHR ''t'']
         else if n = 10 then [CHR 0x5C, CHR ''n'']
         else if n = 12 then [CHR 0x5C, CHR ''f'']
         else if n = 13 then [CHR 0x5C, CHR ''r'']
         else if n < 32 then [CHR 0x5C, CHR ''u'', CHR ''0'', CHR ''0'', hex_digit (n div 16), hex_digit (n mod 16)]
         else [c])"

definition quote :: "string \<Rightarrow> string" where
  "quote s = CHR 0x22 # concat (map escape_char s) @ [CHR 0x22]"

definition unescape :: "char \<Rightarrow> char option" where
  "unescape e =
     (if e = CHR 0x22 then Some CHR 0x22
      else if e = CHR 0x5C then Some (CHR 0x5C)
      else if e = CHR ''/'' then Some CHR ''/''
      else if e = CHR ''b'' then Some (CHR 0x08)
      else if e = CHR ''f'' then Some (CHR 0x0C)
      else if e = CHR ''n'' then Some (CHR 0x0A)
      else if e = CHR ''r'' then Some (CHR 0x0D)
      else if e = CHR ''t'' then Some (CHR 0x09)
      else None)"

definition hex4 :: "char \<Rightarrow> char \<Rightarrow> char \<Rightarrow> char \<Rightarrow> nat option" where
  "hex4 a b c d =
     (case (hex_val a, hex_val b, hex_val c, hex_val d) of
        (Some w, Some x, Some y, Some z) \<Rightarrow> Some (((w * 16 + x) * 16 + y) * 16 + z)
      | _ \<Rightarrow> None)"

fun parse_chars :: "string \<Rightarrow> (string \<times> string) option" where
  "parse_chars [] = None"
| "parse_chars (c # cs) =
     (if c = CHR 0x22 then Some ([], cs)
      else if c = CHR 0x5C then
        (case cs of
           [] \<Rightarrow> None
         | e # cs' \<Rightarrow>
             if e = CHR ''u'' then
               (case cs' of
                  h1 # h2 # h3 # h4 # cs'' \<Rightarrow>
                    (case hex4 h1 h2 h3 h4 of
                       None \<Rightarrow> None
                     | Some n \<Rightarrow>
                         if n < 256 then
                           (case parse_chars cs'' of
                              None \<Rightarrow> None
                            | Some (str, rest) \<Rightarrow> Some (char_of n # str, rest))
                         else None)
                | _ \<Rightarrow> None)
             else
               (case unescape e of
                  None \<Rightarrow> None
                | Some x \<Rightarrow>
                    (case parse_chars cs' of
                       None \<Rightarrow> None
                     | Some (str, rest) \<Rightarrow> Some (x # str, rest))))
      else if (of_char c :: nat) < 32 then None
      else (case parse_chars cs of
              None \<Rightarrow> None
            | Some (str, rest) \<Rightarrow> Some (c # str, rest)))"

text \<open>
  Values. \<open>parse_value\<close> reads one value and returns what follows it; \<open>parse_elems\<close> reads
  the elements of an array after its first bracket, \<open>parse_members\<close> the members of an
  object. A member whose key was already defined replaces the earlier value in place.
\<close>

definition is_json_ws :: "char \<Rightarrow> bool" where
  "is_json_ws c = (of_char c \<in> {9, 10, 13, 32 :: nat})"

definition skip_ws :: "string \<Rightarrow> string" where
  "skip_ws s = dropWhile is_json_ws s"

definition expect :: "string \<Rightarrow> jsval \<Rightarrow> string \<Rightarrow> (jsval \<times> string) option" where
  "expect word v s = (if take (length word) s = word then Some (v, drop (length word) s) else None)"

definition parse_atom :: "string \<Rightarrow> (jsval \<times> string) option" where
  "parse_atom s =
     (case s of
        [] \<Rightarrow> None
      | c # r \<Rightarrow>
          if c = CHR ''n'' then expect ''null'' JNull s
          else if c = CHR ''t'' then expect ''true'' (JBool True) s
          else if c = CHR ''f'' then expect ''false'' (JBool False) s
          else parse_number s)"

fun define_property :: "string \<Rightarrow> jsval \<Rightarrow> (string \<times> jsval) list \<Rightarrow> (string \<times> jsval) list" where
  "define_property k v [] = [(k, v)]"
| "define_property k v (p # ps) = (if fst p = k then (k, v) # ps else p # define_property k v ps)"

definition object_of :: "(string \<times> jsval) list \<Rightarrow> jsval" where
  "object_of members = JObj (foldl (\<lambda>obj (k, v). define_property k v obj) [] members)"

function parse_value :: "string \<Rightarrow> (jsval \<times> string) option"
  and parse_elems :: "string \<Rightarrow> (jsval list \<times> string) option"
  and parse_members :: "string \<Rightarrow> ((string \<times> jsval) list \<times> string) option" where
  "parse_value s =
     (case skip_ws s of
        [] \<Rightarrow> None
      | c # r \<Rightarrow>
          if c = CHR ''['' then
            (case skip_ws r of
               [] \<Rightarrow> None
             | c' # r' \<Rightarrow>
                 if c' = CHR '']'' then Some (JArr [], r')
                 else (case parse_elems r of
                         None \<Rightarrow> None
                       | Some (xs, t) \<Rightarrow> Some (JArr xs, t)))
          else if c = CHR ''{'' then
            (case skip_ws r of
               [] \<Rightarrow> None
             | c' # r' \<Rightarrow>
                 if c' = CHR ''}'' then Some (JObj [], r')
                 else (case parse_members r of
                         None \<Rightarrow> None
                       | Some (kvs, t) \<Rightarrow> Some (object_of kvs, t)))
          else if c = CHR 0x22 then
            (case parse_chars r of
               None \<Rightarrow> None
             | Some (str, t) \<Rightarrow> Some (JStr str, t))
          else parse_atom (c # r))"
| "parse_elems s =
     (case parse_value s of
        None \<Rightarrow> None
      | Some (v, r) \<Rightarrow>
          (case skip_ws r of
             [] \<Rightarrow> None
           | c # r' \<Rightarrow>
               if c = CHR '']'' then Some ([v], r')
               else if c = CHR '','' \<and> length r' < length s then
                 (case parse_elems r' of
                    None \<Rightarrow> None
                  | Some (vs, t) \<Rightarrow> Some (v # vs, t))
               else None))"
| "parse_members s =
     (case skip_ws s of
        [] \<Rightarrow> None
      | c # r \<Rightarrow>
          if c \<noteq> CHR 0x22 then None
          else
            (case parse_chars r of
               None \<Rightarrow> None
             | Some (k, r1) \<Rightarrow>
                 (case skip_ws r1 of
                    [] \<Rightarrow> None
                  | c1 # r2 \<Rightarrow>
                      if c1 = CHR '':'' \<and> length r2 < length s then
                        (case parse_value r2 of
                           None \<Rightarrow> None
                         | Some (v, r3) \<Rightarrow>
                             (case skip_ws r3 of
                                [] \<Rightarrow> None
                              | c3 # r4 \<Rightarrow>
                                  if c3 = CHR ''}'' then Some ([(k, v)], r4)
                                  else if c3 = CHR '','' \<and> length r4 < length s then
                                    (case parse_members r4 of
                                       None \<Rightarrow> None
                                     | Some (kvs, t) \<Rightarrow> Some ((k, v) # kvs, t))
                                  else None))
                      else None)))"
  by pat_completeness auto

termination
proof -
  have len: "length r < length s" if h: "skip_ws s = c # r" for s c r
  proof -
    have "length (skip_ws s) \<le> length s"
      unfolding skip_ws_def by (rule length_dropWhile_le)
    with h show ?thesis by simp
  qed
  show ?thesis
    by (relation "measure (\<lambda>x. case x of
           Inl s \<Rightarrow> 2 * length s
         | Inr (Inl s) \<Rightarrow> 2 * length s + 1
         | Inr (Inr s) \<Rightarrow> 2 * length s + 1)")
       (auto dest: len)
qed

declare parse_value.simps [simp del] parse_elems.simps [simp del] parse_members.simps [simp del]

definition parse_text :: "string \<Rightarrow> jsval option" where
  "parse_text s =
     (case parse_value s of
        None \<Rightarrow> None
      | Some (v, rest) \<Rightarrow> if skip_ws rest = [] then Some v else None)"

section \<open>Binary payloads\<close>

text \<open>
  \<open>BufferJSON\<close> comes from the module \<open>./generics\<close>, which is not among the sources. The
  specification has every binary payload "represented via a distinguished tagged form
  (e.g., a marker field plus base64 text) decodable back to exact original bytes". The
  tagged form here is the object with \<open>type\<close> the string \<open>Buffer\<close> and \<open>data\<close> the base64
  text of the bytes.
\<close>

definition sextet_char :: "nat \<Rightarrow> char" where
  "sextet_char k =
     (if k < 26 then char_of (65 + k)
      else if k < 52 then char_of (71 + k)
      else if k < 62 then char_of (k - 4)
      else if k = 62 then CHR ''+''
      else CHR ''/'')"

definition char_sextet :: "char \<Rightarrow> nat option" where
  "char_sextet c =
     (let n = (of_char c :: nat)
      in if 65 \<le> n \<and> n \<le> 90 then Some (n - 65)
         else if 97 \<le> n \<and> n \<le> 122 then Some (n - 71)
         else if 48 \<le> n \<and> n \<le> 57 then Some (n + 4)
         else if c = CHR ''+'' then Some 62
         else if c = CHR ''/'' then Some 63
         else None)"

text \<open>Three bytes as one 24-bit number, and its sextets and bytes, counted from the right.\<close>

definition pack :: "8 word \<Rightarrow> 8 word \<Rightarrow> 8 word \<Rightarrow> nat" where
  "pack a b c = unat a * 65536 + unat b * 256 + unat c"

definition sextet_at :: "nat \<Rightarrow> nat \<Rightarrow> nat" where
  "sextet_at n k = n div 64 ^ k mod 64"

definition byte_at :: "nat \<Rightarrow> nat \<Rightarrow> 8 word" where
  "byte_at n k = of_nat (n div 256 ^ k mod 256)"

text \<open>Modelled from the spec: the encoder of \<open>BufferJSON.replacer\<close>, base64 with the standard
  alphabet and \<open>=\<close> padding.
\<close>

fun base64_encode :: "8 word list \<Rightarrow> string" where
  "base64_encode [] = []"
| "base64_encode [a] =
     (let n = pack a 0 0
      in [sextet_char (sextet_at n 3), sextet_char (sextet_at n 2), CHR ''='', CHR ''=''])"
| "base64_encode [a, b] =
     (let n = pack a b 0
      in [sextet_char (sextet_at n 3), sextet_char (sextet_at n 2),
          sextet_char (sextet_at n 1), CHR ''=''])"
| "base64_encode (a # b # c # bs) =
     (let n = pack a b c
      in [sextet_char (sextet_at n 3), sextet_char (sextet_at n 2),
          sextet_char (sextet_at n 1), sextet_char (sextet_at n 0)] @ base64_encode bs)"

text \<open>Modelled from the spec: the decoder of \<open>BufferJSON.reviver\<close>. It keeps the characters of
  the alphabet, drops every other one, and turns each four sextets into three bytes, and
  a rest of three or two sextets into two bytes or one.
\<close>

fun sextets_bytes :: "nat list \<Rightarrow> 8 word list" where
  "sextets_bytes (w # x # y # z # ks) =
     (let n = w * 262144 + x * 4096 + y * 64 + z
      in [byte_at n 2, byte_at n 1, byte_at n 0] @ sextets_bytes ks)"
| "sextets_bytes [w, x, y] =
     (let n = w * 262144 + x * 4096 + y * 64
      in [byte_at n 2, byte_at n 1])"
| "sextets_bytes [w, x] = (let n = w * 262144 + x * 4096 in [byte_at n 2])"
| "sextets_bytes ks = []"

definition base64_decode :: "string \<Rightarrow> 8 word list" where
  "base64_decode s = sextets_bytes (List.map_filter char_sextet s)"

text \<open>Modelled from the spec: \<open>BufferJSON.replacer\<close>. A buffer becomes its tagged form; any
  other value is kept.
\<close>

definition replacer :: "jsval \<Rightarrow> jsval" where
  "replacer v =
     (case v of
        JBuf bs \<Rightarrow> JObj [(''type'', JStr ''Buffer''), (''data'', JStr (base64_encode bs))]
      | _ \<Rightarrow> v)"

text \<open>Modelled from the spec: \<open>BufferJSON.reviver\<close>. An object of the tagged form becomes the
  buffer of the decoded bytes; any other value is kept.
\<close>

definition reviver :: "jsval \<Rightarrow> jsval" where
  "reviver v =
     (case v of
        JObj kvs \<Rightarrow>
          (case (map_of kvs ''type'', map_of kvs ''data'') of
             (Some (JStr t), Some (JStr d)) \<Rightarrow> if t = ''Buffer'' then JBuf (base64_decode d) else v
           | _ \<Rightarrow> v)
      | _ \<Rightarrow> v)"

section \<open>JSON.stringify and JSON.parse\<close>

text \<open>
  \<open>JSON.stringify(value, replacer)\<close> passes every value through the replacer before it
  is written, from the outside in; as this replacer keeps every value but a buffer, that
  is \<open>apply_replacer\<close> followed by \<open>serialize\<close>. An \<open>undefined\<close> value is written \<open>null\<close>
  as an array element and left out as an object member, and has no text by itself. A
  buffer the replacer did not see is written as its \<open>toJSON\<close> form.
  \<open>JSON.parse(text, reviver)\<close> parses the text and passes every value through the
  reviver, from the inside out.
\<close>

fun sep_join :: "string \<Rightarrow> string list \<Rightarrow> string" where
  "sep_join sep [] = []"
| "sep_join sep [x] = x"
| "sep_join sep (x # y # ys) = x @ sep @ sep_join sep (y # ys)"

definition element_text :: "string option \<Rightarrow> string" where
  "element_text t = (case t of None \<Rightarrow> ''null'' | Some x \<Rightarrow> x)"

definition member_text :: "string \<times> string option \<Rightarrow> string list" where
  "member_text m = (case m of (k, None) \<Rightarrow> [] | (k, Some x) \<Rightarrow> [quote k @ '':'' @ x])"

primrec apply_replacer :: "jsval \<Rightarrow> jsval" where
  "apply_replacer JUndefined = JUndefined"
| "apply_replacer JNull = JNull"
| "apply_replacer (JBool b) = JBool b"
| "apply_replacer (JNum n) = JNum n"
| "apply_replacer (JStr s) = JStr s"
| "apply_replacer (JArr xs) = JArr (map apply_replacer xs)"
| "apply_replacer (JObj kvs) = JObj (map (map_prod id apply_replacer) kvs)"
| "apply_replacer (JBuf bs) = replacer (JBuf bs)"

primrec serialize :: "jsval \<Rightarrow> string option" where
  "serialize JUndefined = None"
| "serialize JNull = Some ''null''"
| "serialize (JBool b) = Some (if b then ''true'' else ''false'')"
| "serialize (JNum n) = Some (show_int n)"
| "serialize (JStr s) = Some (quote s)"
| "serialize (JArr xs) = Some (''['' @ sep_join '','' (map element_text (map serialize xs)) @ '']'')"
| "serialize (JObj kvs) =
     Some (''{'' @ sep_join '','' (concat (map member_text (map (map_prod id serialize) kvs))) @ ''}'')"
| "serialize (JBuf bs) =
     Some (''{\"type\":\"Buffer\",\"data\":['' @ sep_join '','' (map (\<lambda>b. show_nat (unat b)) bs) @ '']}'')"

primrec revive :: "jsval \<Rightarrow> jsval" where
  "revive JUndefined = reviver JUndefined"
| "revive JNull = reviver JNull"
| "revive (JBool b) = reviver (JBool b)"
| "revive (JNum n) = reviver (JNum n)"
| "revive (JStr s) = reviver (JStr s)"
| "revive (JArr xs) = reviver (JArr (map revive xs))"
| "revive (JObj kvs) = reviver (JObj (map (map_prod id revive) kvs))"
| "revive (JBuf bs) = reviver (JBuf bs)"

definition stringify_BufferJSON :: "jsval \<Rightarrow> js_error + string option" where
  "stringify_BufferJSON v = Inr (serialize (apply_replacer v))"

definition parse_BufferJSON :: "string \<Rightarrow> js_error + jsval" where
  "parse_BufferJSON s = (case parse_text s of None \<Rightarrow> Inl SyntaxError | Some v \<Rightarrow> Inr (revive v))"

section \<open>Values that survive the text\<close>





definition delim :: "string \<Rightarrow> bool" where
  "delim rest = (rest = [] \<or> hd rest \<in> {CHR '','', CHR '']'', CHR ''}''})"

section \<open>The specification's reading of \<open>set\<close>, and sample inputs\<close>

text \<open>
  The triples of an update, flattened, and the operation each one stands for: by the
  wording of the specification (a write when the value is not null, a remove when it is
  null or absent), and by the test the code makes (the value's truthiness).
\<close>

definition triples :: "(string \<times> (string \<times> jsval) list) list \<Rightarrow> (string \<times> string \<times> jsval) list" where
  "triples data =
     concat (map (\<lambda>(category, entries). map (\<lambda>(id', value). (category, id', value)) entries) data)"


definition task_by_truth :: "string \<times> string \<times> jsval \<Rightarrow> task" where
  "task_by_truth t =
     (case t of (category, id', value) \<Rightarrow>
        if truthy value
        then WriteTask value (category @ ''-'' @ id' @ ''.json'')
        else RemoveTask (category @ ''-'' @ id' @ ''.json''))"

text \<open>
  The externals with the modelled \<open>BufferJSON\<close>, a fixed fresh bundle and a decoder that
  returns its argument.
\<close>

definition model_externals :: externals where
  "model_externals =
     \<lparr>JSON_stringify = stringify_BufferJSON,
      JSON_parse = parse_BufferJSON,
      initAuthCreds = JObj [(''registered'', JBool False)],
      fromObject = Inr\<rparr>"

text \<open>
  A root with the session directory \<open>/sess\<close>: empty, or holding one file.
\<close>

definition fs_session :: "access \<Rightarrow> filesystem" where
  "fs_session a = [[] \<mapsto> Dir Permitted, [''sess''] \<mapsto> Dir a]"

definition fs_one_file :: "access \<Rightarrow> access \<Rightarrow> string \<Rightarrow> string \<Rightarrow> filesystem" where
  "fs_one_file a b name text = (fs_session a)([''sess'', name] \<mapsto> File b text)"

text \<open>A root where \<open>/sess\<close> is a regular file.\<close>

definition fs_occupied :: filesystem where
  "fs_occupied = [[] \<mapsto> Dir Permitted, [''sess''] \<mapsto> File Permitted ''x'']"

text \<open>A root with nothing below it.\<close>

definition fs_root :: filesystem where
  "fs_root = [[] \<mapsto> Dir Permitted]"

section \<open>Properties\<close>

lemma units_auth: "units ''auth'' = [97, 117, 116, 104]"
  by (simp add: units_def)

lemma chars_units: "chars (units s) = s"
proof (induction s)
  case Nil
  then show ?case by (simp add: chars_def units_def)
next
  case (Cons c s)
  have "(of_char c :: nat) < 256"
    by (metis char_of_char mod_less_divisor of_char_of zero_less_numeral)
  then have "(of_char c :: nat) < 65536" by (rule less_trans) simp
  then have "unat (of_nat (of_char c) :: 16 word) = of_char c"
    by (simp add: unat_of_nat take_bit_nat_eq_self)
  with Cons show ?case by (simp add: chars_def units_def)
qed

lemma chars_auth: "chars [97, 117, 116, 104] = ''auth''"
  using chars_units [of "''auth''"] by (simp add: units_auth)

lemma word_unit_char: "is_word_unit u \<Longrightarrow> is_word_char (char_of (unat u))"
  by (auto simp: is_word_unit_def is_word_char_def Let_def)

lemma word_unit_back:
  assumes "is_word_unit u"
  shows "(of_nat (of_char (char_of (unat u))) :: 16 word) = u"
proof -
  from assms have "unat u < 256" by (auto simp: is_word_unit_def Let_def)
  then have "(of_char (char_of (unat u)) :: nat) = unat u" by simp
  then show ?thesis by simp
qed

lemma units_chars: "\<forall>u\<in>set us. is_word_unit u \<Longrightarrow> units (chars us) = us"
proof (induction us)
  case Nil
  then show ?case by (simp add: units_def chars_def)
next
  case (Cons u us)
  then have "units (chars us) = us" by simp
  moreover have "units (chars [u]) = [u]"
    using word_unit_back [of u] Cons.prems by (simp add: units_def chars_def del: of_char_of)
  ultimately show ?case by (simp add: units_def chars_def del: of_char_of)
qed

lemma chars_word: "\<forall>u\<in>set us. is_word_unit u \<Longrightarrow> c \<in> set (chars us) \<Longrightarrow> is_word_char c"
  by (auto simp: chars_def word_unit_char)

lemma trim_all_space:
  assumes "\<forall>u\<in>set s. is_space u"
  shows "trim s = []"
proof -
  from assms have h: "dropWhile is_space s = []" by (induction s) auto
  show ?thesis unfolding trim_def h by simp
qed

lemma sanitizeName_None: "sanitizeName None = ''auth''"
  by (simp add: sanitizeName_def units_auth is_space_def is_word_unit_def chars_auth)

lemma sanitizeName_Some:
  "sanitizeName (Some s) =
     chars (let r = take 8 (filter is_word_unit (replace_space_runs (trim s)))
            in if r = [] then units ''auth'' else r)"
proof (cases "trim s = []")
  case True
  then show ?thesis
    by (simp add: sanitizeName_def units_auth is_space_def is_word_unit_def)
next
  case False
  then show ?thesis by (simp add: sanitizeName_def Let_def)
qed

lemma sanitized_units:
  "\<forall>u\<in>set (let r = take 8 (filter is_word_unit (replace_space_runs (trim s)))
              in if r = [] then units ''auth'' else r). is_word_unit u"
  by (auto simp: Let_def units_auth is_word_unit_def dest: in_set_takeD)

lemma sanitizeName_length: "length (sanitizeName input) \<le> 8"
  by (cases input) (simp_all add: sanitizeName_None sanitizeName_Some chars_def Let_def units_auth)

lemma sanitizeName_nonempty: "sanitizeName input \<noteq> []"
  by (cases input) (simp_all add: sanitizeName_None sanitizeName_Some chars_def Let_def units_auth)

lemma sanitizeName_chars: "c \<in> set (sanitizeName input) \<Longrightarrow> is_word_char c"
proof (cases input)
  case None
  assume "c \<in> set (sanitizeName input)"
  with None show ?thesis by (auto simp: sanitizeName_None is_word_char_def)
next
  case (Some s)
  assume "c \<in> set (sanitizeName input)"
  with Some have "c \<in> set (chars (let r = take 8 (filter is_word_unit (replace_space_runs (trim s)))
                                    in if r = [] then units ''auth'' else r))"
    by (simp only: sanitizeName_Some)
  then show ?thesis by (rule chars_word [OF sanitized_units])
qed

lemma sanitizeName_units:
  "units (sanitizeName (Some s)) =
     (let r = take 8 (filter is_word_unit (replace_space_runs (trim s)))
      in if r = [] then units ''auth'' else r)"
  unfolding sanitizeName_Some by (rule units_chars [OF sanitized_units])

text \<open>
  C7. For every input, a list of UTF-16 code units or absent: \<open>sanitizeName\<close> trims
  the input and yields \<open>auth\<close> for an absent, empty or all-white-space input; otherwise
  its code units are those of the trimmed input with each run of white space replaced
  by one underscore, every code unit outside \<open>[A-Za-z0-9_]\<close> dropped and at most 8 kept,
  or those of \<open>auth\<close> if nothing is left. Its result is never empty, never longer than
  8, and made of characters of \<open>[A-Za-z0-9_]\<close> only.
\<close>

theorem sanitizeName_contract:
  "sanitizeName None = ''auth''
   \<and> ((\<forall>u\<in>set s. is_space u) \<longrightarrow> sanitizeName (Some s) = ''auth'')
   \<and> units (sanitizeName (Some s)) =
       (let r = take 8 (filter is_word_unit (replace_space_runs (trim s)))
        in if r = [] then units ''auth'' else r)
   \<and> sanitizeName (Some s) =
       chars (let r = take 8 (filter is_word_unit (replace_space_runs (trim s)))
              in if r = [] then units ''auth'' else r)
   \<and> length (sanitizeName input) \<le> 8
   \<and> sanitizeName input \<noteq> []
   \<and> (\<forall>c\<in>set (sanitizeName input). is_word_char c)"
proof (intro conjI impI)
  show "sanitizeName None = ''auth''" by (rule sanitizeName_None)
  show "sanitizeName (Some s) = ''auth''" if "\<forall>u\<in>set s. is_space u"
    using trim_all_space [OF that]
    by (simp add: sanitizeName_Some units_auth chars_auth)
  show "units (sanitizeName (Some s)) =
       (let r = take 8 (filter is_word_unit (replace_space_runs (trim s)))
        in if r = [] then units ''auth'' else r)"
    by (rule sanitizeName_units)
  show "sanitizeName (Some s) =
       chars (let r = take 8 (filter is_word_unit (replace_space_runs (trim s)))
              in if r = [] then units ''auth'' else r)"
    by (rule sanitizeName_Some)
  show "length (sanitizeName input) \<le> 8" by (rule sanitizeName_length)
  show "sanitizeName input \<noteq> []" by (rule sanitizeName_nonempty)
  show "\<forall>c\<in>set (sanitizeName input). is_word_char c" using sanitizeName_chars by blast
qed

theorem sanitizeName_contract_witness:
  "list_all is_space [0x3000, 0xFEFF, 0x20] \<and> sanitizeName (Some [0x3000, 0xFEFF, 0x20]) = ''auth''
   \<and> sanitizeName (Some (units '' my  session! '')) = ''my_sessi''
   \<and> sanitizeName (Some [0x61, 0x2003, 0x62]) = ''a_b''
   \<and> sanitizeName (Some [0x141, 0x61]) = ''a''
   \<and> list_all is_word_char (sanitizeName (Some (units '' my  session! '')))"
proof -
  note c = sanitizeName_contract [of "[0x3000, 0xFEFF, 0x20]" "Some (units '' my  session! '')"]
  have sp: "\<forall>u\<in>set [0x3000, 0xFEFF, 0x20 :: 16 word]. is_space u" by (simp add: is_space_def)
  have a: "sanitizeName (Some [0x3000, 0xFEFF, 0x20]) = ''auth''"
    by (rule mp [OF c [THEN conjunct2, THEN conjunct1] sp])
  note k = sanitizeName_contract [THEN conjunct2, THEN conjunct2, THEN conjunct2, THEN conjunct1]
  have e1: "(let r = take 8 (filter is_word_unit (replace_space_runs (trim (units '' my  session! ''))))
             in if r = [] then units ''auth'' else r) = units ''my_sessi''"
    by (simp add: units_def trim_def is_space_def is_word_unit_def)
  have e2: "(let r = take 8 (filter is_word_unit (replace_space_runs (trim [0x61, 0x2003, 0x62])))
             in if r = [] then units ''auth'' else r) = units ''a_b''"
    by (simp add: units_def trim_def is_space_def is_word_unit_def)
  have e3: "(let r = take 8 (filter is_word_unit (replace_space_runs (trim [0x141, 0x61])))
             in if r = [] then units ''auth'' else r) = units ''a''"
    by (simp add: units_def trim_def is_space_def is_word_unit_def)
  have cu: "chars (units ''my_sessi'') = ''my_sessi''" "chars (units ''a_b'') = ''a_b''"
    "chars (units ''a'') = ''a''"
    by (rule chars_units)+
  have b1: "sanitizeName (Some (units '' my  session! '')) = ''my_sessi''"
    using k [of "units '' my  session! ''"] cu by (simp only: e1)
  have b2: "sanitizeName (Some [0x61, 0x2003, 0x62]) = ''a_b''"
    using k [of "[0x61, 0x2003, 0x62]"] cu by (simp only: e2)
  have b3: "sanitizeName (Some [0x141, 0x61]) = ''a''"
    using k [of "[0x141, 0x61]"] cu by (simp only: e3)
  have w: "\<forall>c\<in>set (sanitizeName (Some (units '' my  session! ''))). is_word_char c"
    by (rule c [THEN conjunct2, THEN conjunct2, THEN conjunct2, THEN conjunct2, THEN conjunct2,
          THEN conjunct2])
  have l1: "list_all is_space [0x3000, 0xFEFF, 0x20 :: 16 word]"
    unfolding list_all_iff by (rule sp)
  have l2: "list_all is_word_char (sanitizeName (Some (units '' my  session! '')))"
    unfolding list_all_iff by (rule w)
  show ?thesis by (intro conjI) (rule l1 a b1 b2 b3 l2)+
qed

lemma inner_foldl:
  "foldl (push_entry category) acc entries
   = acc @ map (\<lambda>(id', value). task_by_truth (category, id', value)) entries"
  by (induction entries arbitrary: acc) (auto simp: task_by_truth_def push_entry_def Let_def)

lemma outer_foldl: "foldl push_category acc data = acc @ map task_by_truth (triples data)"
proof (induction data arbitrary: acc)
  case Nil
  then show ?case by (simp add: triples_def)
next
  case (Cons a data)
  obtain category entries where a: "a = (category, entries)" by (cases a)
  have t: "triples (a # data)
             = map (\<lambda>(id', value). (category, id', value)) entries @ triples data"
    by (simp add: triples_def a)
  have p: "push_category acc a = acc @ map (\<lambda>(id', value). task_by_truth (category, id', value)) entries"
    by (simp add: push_category_def a inner_foldl)
  show ?case
    unfolding t by (simp add: Cons.IH p comp_def case_prod_unfold)
qed

lemma set_tasks_flatten: "set_tasks data = map task_by_truth (triples data)"
  unfolding set_tasks_def using outer_foldl [of "[]" data] by simp



lemma try_catch_resolve:
  "try_catch m (resolve v) fs = (case m fs of (Inl e, fs') \<Rightarrow> (Inr v, fs') | (Inr x, fs') \<Rightarrow> (Inr x, fs'))"
  by (simp add: try_catch_def resolve_def split: prod.splits sum.splits)

lemma readFile_fs: "snd (readFile p fs) = fs"
  by (simp add: readFile_def split: option.splits node.splits access.splits)

lemma readData_eq:
  "readData ext folder file fs =
     (Inr (case fst (readFile (join folder (fixFileName file)) fs) of
             Inl e \<Rightarrow> JNull
           | Inr text \<Rightarrow> (case JSON_parse ext text of Inl e \<Rightarrow> JNull | Inr v \<Rightarrow> v)), fs)"
  using readFile_fs [of "join folder (fixFileName file)" fs]
  by (auto simp: readData_def try_catch_resolve with_lock_def Let_def split: prod.splits sum.splits)

lemma unlink_fs:
  "unlink p fs = (r, fs') \<Longrightarrow> (r = Inr () \<and> fs' = fs(p := None)) \<or> (\<exists>e. r = Inl (FsError e) \<and> fs' = fs)"
  by (auto simp: unlink_def split: option.splits node.splits access.splits)

lemma removeData_eq:
  "removeData ext folder file fs = (Inr (), snd (unlink (join folder (fixFileName file)) fs))"
  by (auto simp: removeData_def try_catch_resolve with_lock_def Let_def split: prod.splits sum.splits)

lemma writeData_eq:
  "JSON_stringify ext data = Inr (Some text) \<Longrightarrow>
   writeData ext folder data file fs = writeFile (join folder (fixFileName file)) text fs"
  by (simp add: writeData_def with_lock_def Let_def)

lemma join_plain: "name \<noteq> [] \<Longrightarrow> name \<noteq> ''.'' \<Longrightarrow> name \<noteq> ''..'' \<Longrightarrow> join folder name = folder @ [name]"
  by (simp add: join_def)

lemma fixFileName_k1: "fixFileName ''k-1.json'' = ''k-1.json''"
  by (simp add: fixFileName_def replace_char_def)

lemma join_k1: "join [''sess''] (fixFileName ''k-1.json'') = [''sess'', ''k-1.json'']"
  by (simp add: fixFileName_k1 join_def)

lemma parse_array_1: "parse_BufferJSON ''[1]'' = Inr (JArr [JNum 1])"
  by (simp add: parse_BufferJSON_def parse_text_def parse_value.simps parse_elems.simps
      skip_ws_def is_json_ws_def parse_atom_def parse_number_def is_digit_def read_nat_def
      digit_val_def reviver_def)

lemma parse_brace: "parse_BufferJSON ''{'' = Inl SyntaxError"
  by (simp add: parse_BufferJSON_def parse_text_def parse_value.simps skip_ws_def is_json_ws_def)

text \<open>
  C3. \<open>readData\<close> never rejects and leaves the filesystem as it is. Its value is
  \<open>null\<close> when the file does not exist, when reading it fails for any reason, and when
  its content does not parse; when the file is read and parses, it is the parsed value.
  This holds for every parser.
\<close>

theorem readData_contract:
  "(\<exists>v. readData ext folder file fs = (Inr v, fs))
   \<and> (fs (join folder (fixFileName file)) = None \<longrightarrow>
        fst (readData ext folder file fs) = Inr JNull)
   \<and> (\<forall>e. fst (readFile (join folder (fixFileName file)) fs) = Inl e \<longrightarrow>
        fst (readData ext folder file fs) = Inr JNull)
   \<and> (\<forall>text e. fst (readFile (join folder (fixFileName file)) fs) = Inr text
          \<and> JSON_parse ext text = Inl e \<longrightarrow>
        fst (readData ext folder file fs) = Inr JNull)
   \<and> (\<forall>text v. fst (readFile (join folder (fixFileName file)) fs) = Inr text
          \<and> JSON_parse ext text = Inr v \<longrightarrow>
        fst (readData ext folder file fs) = Inr v)"
  by (simp add: readData_eq readFile_def)

theorem readData_contract_witness:
  "fst (readData model_externals [''sess''] ''k-1.json''
          (fs_one_file Permitted Permitted ''k-1.json'' ''[1]'')) = Inr (JArr [JNum 1])
   \<and> fst (readData model_externals [''sess''] ''k-1.json''
          (fs_one_file Permitted Permitted ''k-1.json'' ''{'')) = Inr JNull
   \<and> fst (readData model_externals [''sess''] ''k-1.json''
          (fs_one_file Permitted Denied ''k-1.json'' ''[1]'')) = Inr JNull
   \<and> fst (readData model_externals [''sess''] ''k-1.json'' (fs_session Permitted)) = Inr JNull"
proof -
  have good: "fst (readFile (join [''sess''] (fixFileName ''k-1.json''))
                   (fs_one_file Permitted Permitted ''k-1.json'' ''[1]'')) = Inr ''[1]''"
    by (simp add: join_k1 readFile_def fs_one_file_def)
  have bad: "fst (readFile (join [''sess''] (fixFileName ''k-1.json''))
                   (fs_one_file Permitted Permitted ''k-1.json'' ''{'')) = Inr ''{''"
    by (simp add: join_k1 readFile_def fs_one_file_def)
  have denied: "fst (readFile (join [''sess''] (fixFileName ''k-1.json''))
                   (fs_one_file Permitted Denied ''k-1.json'' ''[1]'')) = Inl (FsError EACCES)"
    by (simp add: join_k1 readFile_def fs_one_file_def)
  have missing: "fs_session Permitted (join [''sess''] (fixFileName ''k-1.json'')) = None"
    by (simp add: join_k1 fs_session_def)
  have p1: "JSON_parse model_externals ''[1]'' = Inr (JArr [JNum 1])"
    by (simp add: model_externals_def parse_array_1)
  have p2: "JSON_parse model_externals ''{'' = Inl SyntaxError"
    by (simp add: model_externals_def parse_brace)
  show ?thesis
    using readData_contract [of model_externals "[''sess'']" "''k-1.json''"
            "fs_one_file Permitted Permitted ''k-1.json'' ''[1]''"]
          readData_contract [of model_externals "[''sess'']" "''k-1.json''"
            "fs_one_file Permitted Permitted ''k-1.json'' ''{''"]
          readData_contract [of model_externals "[''sess'']" "''k-1.json''"
            "fs_one_file Permitted Denied ''k-1.json'' ''[1]''"]
          readData_contract [of model_externals "[''sess'']" "''k-1.json''" "fs_session Permitted"]
          good bad denied missing p1 p2
    by blast
qed

lemma writeFile_result:
  "writeFile p s fs = (r, fs') \<Longrightarrow>
     (r = Inr () \<and> fs' = fs(p \<mapsto> File Permitted s)) \<or> (\<exists>e. r = Inl (FsError e) \<and> fs' = fs)"
  by (auto simp: writeFile_def split: option.splits node.splits access.splits)




lemma replace_char_append: "replace_char c r (a @ b) = replace_char c r a @ replace_char c r b"
  by (simp add: replace_char_def)

lemma fixFileName_append: "fixFileName (a @ b) = fixFileName a @ fixFileName b"
  by (simp add: fixFileName_def replace_char_append)

lemma fixFileName_charwise:
  "fixFileName s =
     concat (map (\<lambda>c. if c = CHR ''/'' then ''__'' else if c = CHR '':'' then ''-'' else [c]) s)"
  by (induction s) (auto simp: fixFileName_def replace_char_def)

lemma fixFileName_composed:
  "fixFileName (category @ ''-'' @ id' @ ''.json'')
     = fixFileName category @ ''-'' @ fixFileName id' @ ''.json''"
proof -
  have "fixFileName ''-'' = ''-''" and "fixFileName ''.json'' = ''.json''"
    by (simp_all add: fixFileName_def replace_char_def)
  then show ?thesis by (simp only: fixFileName_append)
qed

lemma join_composed:
  "join folder (fixFileName (category @ ''-'' @ id' @ ''.json''))
     = folder @ [fixFileName category @ ''-'' @ fixFileName id' @ ''.json'']"
  unfolding fixFileName_composed by (simp add: join_def)

lemma keys_set_single:
  "keys_set ext folder [(category, [(id', value)])] fs =
     (case run_task ext folder (task_by_truth (category, id', value)) fs of
        (r, fs') \<Rightarrow> (promise_all [r], fs'))"
  by (simp add: keys_set_def set_tasks_flatten triples_def split: prod.splits)

lemma promise_all_single: "promise_all [r] = r"
  by (cases r) auto

text \<open>
  C9. The record of a category and an id is stored under \<open>fixFileName\<close> of the whole
  composed name \<open>category-id.json\<close>. \<open>fixFileName\<close> replaces every \<open>/\<close> by \<open>__\<close> and every
  \<open>:\<close> by \<open>-\<close>, character by character, so applying it to the whole name is applying it
  to the category and to the id; a successful \<open>set\<close> of a truthy value leaves the
  serialized value in that file. \<open>a/b\<close> gives \<open>a__b\<close>, and \<open>a:b\<close> gives \<open>a-b\<close>.
\<close>

theorem record_file_name:
  "join folder (fixFileName (category @ ''-'' @ id' @ ''.json''))
     = folder @ [fixFileName category @ ''-'' @ fixFileName id' @ ''.json'']
   \<and> fixFileName (category @ ''-'' @ id' @ ''.json'') =
       concat (map (\<lambda>c. if c = CHR ''/'' then ''__'' else if c = CHR '':'' then ''-'' else [c])
                 (category @ ''-'' @ id' @ ''.json''))
   \<and> (truthy value \<and> JSON_stringify ext value = Inr (Some content)
        \<and> fst (keys_set ext folder [(category, [(id', value)])] fs) = Inr () \<longrightarrow>
       snd (keys_set ext folder [(category, [(id', value)])] fs)
         (folder @ [fixFileName category @ ''-'' @ fixFileName id' @ ''.json''])
         = Some (File Permitted content))
   \<and> fixFileName ''a/b'' = ''a__b''
   \<and> fixFileName ''a:b'' = ''a-b''"
proof -
  let ?p = "join folder (fixFileName (category @ ''-'' @ id' @ ''.json''))"
  have stored: "snd (keys_set ext folder [(category, [(id', value)])] fs) ?p
                  = Some (File Permitted content)"
    if t: "truthy value" and s: "JSON_stringify ext value = Inr (Some content)"
      and ok: "fst (keys_set ext folder [(category, [(id', value)])] fs) = Inr ()"
  proof -
    obtain r fs' where w: "writeFile ?p content fs = (r, fs')"
      by (cases "writeFile ?p content fs")
    have k: "keys_set ext folder [(category, [(id', value)])] fs = (r, fs')"
      using t s w by (simp add: keys_set_single task_by_truth_def writeData_eq promise_all_single)
    with ok have "r = Inr ()" by simp
    with writeFile_result [OF w] have "fs' = fs(?p \<mapsto> File Permitted content)" by auto
    with k show ?thesis by simp
  qed
  have ex: "fixFileName ''a/b'' = ''a__b''" "fixFileName ''a:b'' = ''a-b''"
    by (simp_all add: fixFileName_def replace_char_def)
  show ?thesis
  proof (intro conjI impI)
    show "?p = folder @ [fixFileName category @ ''-'' @ fixFileName id' @ ''.json'']"
      by (rule join_composed)
    show "fixFileName (category @ ''-'' @ id' @ ''.json'') =
       concat (map (\<lambda>c. if c = CHR ''/'' then ''__'' else if c = CHR '':'' then ''-'' else [c])
                 (category @ ''-'' @ id' @ ''.json''))"
      by (rule fixFileName_charwise)
    show "snd (keys_set ext folder [(category, [(id', value)])] fs)
         (folder @ [fixFileName category @ ''-'' @ fixFileName id' @ ''.json''])
         = Some (File Permitted content)"
      if "truthy value \<and> JSON_stringify ext value = Inr (Some content)
        \<and> fst (keys_set ext folder [(category, [(id', value)])] fs) = Inr ()"
      using that stored by (simp only: join_composed [symmetric])
  qed (rule ex)+
qed

lemma stringify_1: "stringify_BufferJSON (JNum 1) = Inr (Some ''1'')"
  by code_simp

theorem record_file_name_witness:
  "truthy (JNum 1) \<and> JSON_stringify model_externals (JNum 1) = Inr (Some ''1'')
   \<and> fst (keys_set model_externals [''sess''] [(''a/b'', [(''c:d'', JNum 1)])] (fs_session Permitted))
       = Inr ()
   \<and> snd (keys_set model_externals [''sess''] [(''a/b'', [(''c:d'', JNum 1)])] (fs_session Permitted))
       [''sess'', ''a__b-c-d.json''] = Some (File Permitted ''1'')"
proof -
  have s: "JSON_stringify model_externals (JNum 1) = Inr (Some ''1'')"
    by (simp add: model_externals_def stringify_1)
  have f: "fixFileName ''a/b'' = ''a__b''" "fixFileName ''c:d'' = ''c-d''"
    by (simp_all add: fixFileName_def replace_char_def)
  have ok: "fst (keys_set model_externals [''sess''] [(''a/b'', [(''c:d'', JNum 1)])]
                  (fs_session Permitted)) = Inr ()"
    using join_composed [of "[''sess'']" "''a/b''" "''c:d''"]
    by (simp add: keys_set_single task_by_truth_def writeData_eq [OF s] promise_all_single f
        writeFile_def fs_session_def)
  show ?thesis
    using record_file_name [of "[''sess'']" "''a/b''" "''c:d''" "JNum 1" model_externals "''1''"
            "fs_session Permitted"] s ok f
    by simp
qed




lemma mkdirs_preserves:
  "mkdirs base segs fs = (r, fs1) \<Longrightarrow> fs q \<noteq> None \<Longrightarrow> fs1 q = fs q"
proof (induction segs arbitrary: base fs)
  case Nil
  then show ?case by simp
next
  case (Cons seg segs)
  show ?case
  proof (cases "fs (base @ [seg])")
    case None
    with Cons.prems have ne: "q \<noteq> base @ [seg]" by auto
    show ?thesis
    proof (cases "fs base")
      case N: None
      with None Cons.prems show ?thesis by simp
    next
      case (Some n)
      show ?thesis
      proof (cases n)
        case (Dir a)
        show ?thesis
        proof (cases a)
          case Permitted
          with None Some Dir Cons.prems
          have "mkdirs (base @ [seg]) segs (fs(base @ [seg] \<mapsto> Dir Permitted)) = (r, fs1)"
            by (simp add: Let_def)
          from Cons.IH [OF this] ne Cons.prems(2) show ?thesis by simp
        next
          case Denied
          with None Some Dir Cons.prems show ?thesis by simp
        qed
      next
        case (File a s)
        with None Some Cons.prems show ?thesis by simp
      qed
    qed
  next
    case (Some n)
    show ?thesis
    proof (cases n)
      case (Dir a)
      with Some Cons.prems have "mkdirs (base @ [seg]) segs fs = (r, fs1)" by simp
      from Cons.IH [OF this Cons.prems(2)] show ?thesis .
    next
      case (File a s)
      with Some Cons.prems show ?thesis by simp
    qed
  qed
qed

lemma mkdirs_creates:
  "mkdirs base segs fs = (Inr (), fs1) \<Longrightarrow> 0 < n \<Longrightarrow> n \<le> length segs \<Longrightarrow>
     \<exists>a. fs1 (base @ take n segs) = Some (Dir a)"
proof (induction segs arbitrary: base fs n)
  case Nil
  then show ?case by simp
next
  case (Cons seg segs)
  let ?p = "base @ [seg]"
  have step: "\<exists>fs0. mkdirs ?p segs fs0 = (Inr (), fs1) \<and> (\<exists>a. fs0 ?p = Some (Dir a))"
  proof (cases "fs ?p")
    case None
    with Cons.prems(1) show ?thesis
      by (cases "fs base") (auto simp: Let_def split: node.splits access.splits)
  next
    case (Some nd)
    with Cons.prems(1) show ?thesis by (cases nd) (auto simp: Let_def)
  qed
  then obtain fs0 a where m: "mkdirs ?p segs fs0 = (Inr (), fs1)" and d: "fs0 ?p = Some (Dir a)"
    by blast
  show ?case
  proof (cases n)
    case 0
    with Cons.prems show ?thesis by simp
  next
    case (Suc k)
    show ?thesis
    proof (cases k)
      case 0
      from mkdirs_preserves [OF m, of ?p] d have "fs1 ?p = Some (Dir a)" by simp
      with Suc 0 show ?thesis by simp
    next
      case (Suc j)
      with \<open>n = Suc k\<close> Cons.prems have "0 < k" "k \<le> length segs" by simp_all
      from Cons.IH [OF m this] \<open>n = Suc k\<close> show ?thesis by simp
    qed
  qed
qed

lemma stat_eq: "stat p fs = (case fs p of None \<Rightarrow> (Inl (FsError ENOENT), fs) | Some n \<Rightarrow> (Inr n, fs))"
  by (simp add: stat_def)

lemma open_file:
  "fs folder = Some (File a c) \<Longrightarrow>
   useMultiFileAuthState ext folder name fs =
     (Inl (Error (''Found non-directory at '' @ path_string folder
                  @ '', delete or specify a different location.'')), fs)"
  by (simp add: useMultiFileAuthState_def try_catch_resolve stat_eq Let_def)

lemma open_dir:
  "fs folder = Some (Dir a) \<Longrightarrow>
   useMultiFileAuthState ext folder name fs = (Inr (load_creds ext folder name fs), fs)"
  by (simp add: useMultiFileAuthState_def try_catch_resolve stat_eq Let_def readData_eq load_creds_def)

lemma open_absent:
  "fs folder = None \<Longrightarrow>
   useMultiFileAuthState ext folder name fs =
     (case mkdir_recursive folder fs of
        (Inl e, fs1) \<Rightarrow> (Inl e, fs1)
      | (Inr u, fs1) \<Rightarrow> (Inr (load_creds ext folder name fs1), fs1))"
  by (simp add: useMultiFileAuthState_def try_catch_resolve stat_eq Let_def readData_eq load_creds_def
      split: prod.splits sum.splits)

lemma open_success:
  "useMultiFileAuthState ext folder name fs = (Inr st, fs') \<Longrightarrow> st = load_creds ext folder name fs'"
proof (cases "fs folder")
  case None
  assume "useMultiFileAuthState ext folder name fs = (Inr st, fs')"
  with None show ?thesis by (auto simp: open_absent split: prod.splits sum.splits)
next
  case (Some n)
  assume "useMultiFileAuthState ext folder name fs = (Inr st, fs')"
  with Some show ?thesis by (cases n) (auto simp: open_dir open_file)
qed

lemma fixFileName_id: "CHR ''/'' \<notin> set s \<Longrightarrow> CHR '':'' \<notin> set s \<Longrightarrow> fixFileName s = s"
  by (induction s) (auto simp: fixFileName_def replace_char_def)

lemma word_char_not_sep: "is_word_char c \<Longrightarrow> c \<noteq> CHR ''/'' \<and> c \<noteq> CHR '':''"
  by (auto simp: is_word_char_def)

lemma cred_path:
  "join folder (fixFileName (sanitizeName name @ ''.json'')) = folder @ [sanitizeName name @ ''.json'']"
proof -
  have "CHR ''/'' \<notin> set (sanitizeName name)" "CHR '':'' \<notin> set (sanitizeName name)"
    using sanitizeName_chars [of _ name] word_char_not_sep by blast+
  then have "fixFileName (sanitizeName name @ ''.json'') = sanitizeName name @ ''.json''"
    by (intro fixFileName_id) auto
  moreover have "x \<noteq> [] \<and> x \<noteq> ''.'' \<and> x \<noteq> ''..''" if "length x \<ge> 5" for x :: string
    using that by auto
  then have "sanitizeName name @ ''.json'' \<noteq> [] \<and> sanitizeName name @ ''.json'' \<noteq> ''.''
             \<and> sanitizeName name @ ''.json'' \<noteq> ''..''"
    by simp
  ultimately show ?thesis by (simp add: join_def)
qed

lemma load_creds_absent:
  "fs (folder @ [sanitizeName name @ ''.json'']) = None \<Longrightarrow>
   creds (load_creds ext folder name fs) = initAuthCreds ext"
  by (simp add: load_creds_def readData_eq cred_path readFile_def)

text \<open>
  C8. When the folder's path holds a regular file, \<open>useMultiFileAuthState\<close> is rejected
  with the error \<open>Found non-directory at ...\<close> and the filesystem is left as it was. When
  nothing is at the path, it leaves the filesystem \<open>mkdir\<close> with \<open>recursive\<close> leaves: a
  failure of \<open>mkdir\<close> rejects it, and otherwise the folder and each of its parents is a
  directory and nothing that existed has changed. When it is fulfilled, the credential
  file is \<open>sanitizeName name\<close> followed by \<open>.json\<close>, the credentials are the truthy value
  read from it, and they are the fresh bundle of \<open>initAuthCreds\<close> when the file is absent.
\<close>

theorem open_contract:
  "(\<forall>a c. fs folder = Some (File a c) \<longrightarrow>
      useMultiFileAuthState ext folder name fs =
        (Inl (Error (''Found non-directory at '' @ path_string folder
                     @ '', delete or specify a different location.'')), fs))
   \<and> (fs folder = None \<longrightarrow>
        snd (useMultiFileAuthState ext folder name fs) = snd (mkdir_recursive folder fs)
        \<and> (\<forall>e. fst (mkdir_recursive folder fs) = Inl e \<longrightarrow>
              fst (useMultiFileAuthState ext folder name fs) = Inl e)
        \<and> (fst (mkdir_recursive folder fs) = Inr () \<longrightarrow>
              (\<forall>n. 0 < n \<and> n \<le> length folder \<longrightarrow>
                 (\<exists>a. snd (mkdir_recursive folder fs) (take n folder) = Some (Dir a)))
              \<and> (\<forall>q. fs q \<noteq> None \<longrightarrow> snd (mkdir_recursive folder fs) q = fs q)))
   \<and> (\<forall>st fs'. useMultiFileAuthState ext folder name fs = (Inr st, fs') \<longrightarrow>
        credFileName st = sanitizeName name @ ''.json''
        \<and> (\<forall>v. fst (readData ext folder (sanitizeName name @ ''.json'') fs') = Inr v \<and> truthy v \<longrightarrow>
              creds st = v)
        \<and> (fs' (folder @ [sanitizeName name @ ''.json'']) = None \<longrightarrow>
              creds st = initAuthCreds ext))"
proof (intro conjI allI impI)
  fix a c
  assume "fs folder = Some (File a c)"
  then show "useMultiFileAuthState ext folder name fs =
        (Inl (Error (''Found non-directory at '' @ path_string folder
                     @ '', delete or specify a different location.'')), fs)"
    by (rule open_file)
next
  assume "fs folder = None"
  then show "snd (useMultiFileAuthState ext folder name fs) = snd (mkdir_recursive folder fs)"
    by (simp add: open_absent split: prod.splits sum.splits)
next
  fix e
  assume "fs folder = None" and "fst (mkdir_recursive folder fs) = Inl e"
  then show "fst (useMultiFileAuthState ext folder name fs) = Inl e"
    by (cases "mkdir_recursive folder fs") (auto simp: open_absent)
next
  fix n
  assume m: "fst (mkdir_recursive folder fs) = Inr ()" and n: "0 < n \<and> n \<le> length folder"
  obtain fs1 where "mkdirs [] folder fs = (Inr (), fs1)"
    using m by (cases "mkdirs [] folder fs") (simp add: mkdir_recursive_def)
  with mkdirs_creates [of "[]" folder fs fs1 n] n
  show "\<exists>a. snd (mkdir_recursive folder fs) (take n folder) = Some (Dir a)"
    by (simp add: mkdir_recursive_def)
next
  fix q
  assume "fs q \<noteq> None"
  with mkdirs_preserves [of "[]" folder fs "fst (mkdirs [] folder fs)" "snd (mkdirs [] folder fs)" q]
  show "snd (mkdir_recursive folder fs) q = fs q"
    by (simp add: mkdir_recursive_def)
next
  fix st fs'
  assume "useMultiFileAuthState ext folder name fs = (Inr st, fs')"
  then have st: "st = load_creds ext folder name fs'" by (rule open_success)
  show "credFileName st = sanitizeName name @ ''.json''"
    by (simp add: st load_creds_def)
  show "creds st = v"
    if "fst (readData ext folder (sanitizeName name @ ''.json'') fs') = Inr v \<and> truthy v" for v
    using that by (simp add: st load_creds_def)
  show "creds st = initAuthCreds ext" if "fs' (folder @ [sanitizeName name @ ''.json'']) = None"
    using that by (simp add: st load_creds_absent)
qed

lemma sanitizeName_default: "sanitizeName None = ''auth''"
  by (rule sanitizeName_None)

theorem open_contract_witness:
  "useMultiFileAuthState model_externals [''sess''] None fs_occupied =
     (Inl (Error ''Found non-directory at /sess, delete or specify a different location.''),
      fs_occupied)
   \<and> fst (mkdir_recursive [''sess'', ''a''] fs_root) = Inr ()
   \<and> snd (useMultiFileAuthState model_externals [''sess'', ''a''] None fs_root) [''sess'']
        = Some (Dir Permitted)
   \<and> snd (useMultiFileAuthState model_externals [''sess'', ''a''] None fs_root) [''sess'', ''a'']
        = Some (Dir Permitted)
   \<and> fst (useMultiFileAuthState model_externals [''sess'', ''a''] None fs_root)
        = Inr \<lparr>creds = JObj [(''registered'', JBool False)], credFileName = ''auth.json''\<rparr>
   \<and> fst (useMultiFileAuthState model_externals [''sess''] None
             (fs_one_file Permitted Permitted ''auth.json'' ''[1]''))
        = Inr \<lparr>creds = JArr [JNum 1], credFileName = ''auth.json''\<rparr>"
proof -
  note occ = open_contract [of fs_occupied "[''sess'']" model_externals None]
  note new = open_contract [of fs_root "[''sess'', ''a'']" model_externals None]
  have o: "fs_occupied [''sess''] = Some (File Permitted ''x'')" by (simp add: fs_occupied_def)
  have 1: "useMultiFileAuthState model_externals [''sess''] None fs_occupied =
     (Inl (Error ''Found non-directory at /sess, delete or specify a different location.''),
      fs_occupied)"
    using occ [THEN conjunct1] o by (simp add: path_string_def)
  have a: "fs_root [''sess'', ''a''] = None" by (simp add: fs_root_def)
  have m: "mkdir_recursive [''sess'', ''a''] fs_root =
             (Inr (), fs_root([''sess''] \<mapsto> Dir Permitted, [''sess'', ''a''] \<mapsto> Dir Permitted))"
    by (simp add: mkdir_recursive_def fs_root_def)
  have s: "snd (useMultiFileAuthState model_externals [''sess'', ''a''] None fs_root)
             = fs_root([''sess''] \<mapsto> Dir Permitted, [''sess'', ''a''] \<mapsto> Dir Permitted)"
    using new [THEN conjunct2, THEN conjunct1] a m by simp
  have 3: "snd (useMultiFileAuthState model_externals [''sess'', ''a''] None fs_root) [''sess'']
        = Some (Dir Permitted)" by (simp add: s)
  have 4: "snd (useMultiFileAuthState model_externals [''sess'', ''a''] None fs_root) [''sess'', ''a'']
        = Some (Dir Permitted)" by (simp add: s)
  have 5: "fst (useMultiFileAuthState model_externals [''sess'', ''a''] None fs_root)
        = Inr \<lparr>creds = JObj [(''registered'', JBool False)], credFileName = ''auth.json''\<rparr>"
  proof -
    have "fst (readFile [''sess'', ''a'', ''auth.json'']
                 (fs_root([''sess''] \<mapsto> Dir Permitted, [''sess'', ''a''] \<mapsto> Dir Permitted)))
            = Inl (FsError ENOENT)"
      by (simp add: readFile_def fs_root_def)
    then show ?thesis
      by (simp add: open_absent a m load_creds_def sanitizeName_default readData_eq join_def
          fixFileName_def replace_char_def model_externals_def)
  qed
  have 6: "fst (useMultiFileAuthState model_externals [''sess''] None
             (fs_one_file Permitted Permitted ''auth.json'' ''[1]''))
        = Inr \<lparr>creds = JArr [JNum 1], credFileName = ''auth.json''\<rparr>"
    by (simp add: open_dir [of _ _ Permitted] load_creds_def sanitizeName_default readData_eq join_def
        fixFileName_def replace_char_def readFile_def fs_one_file_def fs_session_def model_externals_def
        parse_array_1)
  show ?thesis using 1 m 3 4 5 6 by simp
qed

text \<open>
  C10. When the credential file exists and its content parses to a falsy value, the
  credentials are the fresh bundle of \<open>initAuthCreds\<close>, not the stored value: so for
  the JSON texts of \<open>null\<close>, \<open>false\<close>, \<open>0\<close> and the empty string.
\<close>

theorem falsy_creds_replaced:
  assumes "fs folder = Some (Dir a)"
    and "fs (folder @ [sanitizeName name @ ''.json'']) = Some (File Permitted content)"
    and "JSON_parse ext content = Inr v"
    and "\<not> truthy v"
  shows "useMultiFileAuthState ext folder name fs =
           (Inr \<lparr>creds = initAuthCreds ext, credFileName = sanitizeName name @ ''.json''\<rparr>, fs)"
  using assms by (simp add: open_dir load_creds_def readData_eq cred_path readFile_def)

lemma parse_falsy:
  "parse_BufferJSON ''null'' = Inr JNull"
  "parse_BufferJSON ''false'' = Inr (JBool False)"
  "parse_BufferJSON ''0'' = Inr (JNum 0)"
  "parse_BufferJSON [CHR 0x22, CHR 0x22] = Inr (JStr [])"
  by (simp_all add: parse_BufferJSON_def parse_text_def parse_value.simps
      skip_ws_def is_json_ws_def parse_atom_def expect_def parse_number_def is_digit_def read_nat_def
      digit_val_def reviver_def)

theorem falsy_creds_replaced_witness:
  "fst (useMultiFileAuthState model_externals [''sess''] None
          (fs_one_file Permitted Permitted ''auth.json'' ''null''))
     = Inr \<lparr>creds = JObj [(''registered'', JBool False)], credFileName = ''auth.json''\<rparr>
   \<and> fst (useMultiFileAuthState model_externals [''sess''] None
          (fs_one_file Permitted Permitted ''auth.json'' ''false''))
     = Inr \<lparr>creds = JObj [(''registered'', JBool False)], credFileName = ''auth.json''\<rparr>
   \<and> fst (useMultiFileAuthState model_externals [''sess''] None
          (fs_one_file Permitted Permitted ''auth.json'' ''0''))
     = Inr \<lparr>creds = JObj [(''registered'', JBool False)], credFileName = ''auth.json''\<rparr>
   \<and> fst (useMultiFileAuthState model_externals [''sess''] None
          (fs_one_file Permitted Permitted ''auth.json'' [CHR 0x22, CHR 0x22]))
     = Inr \<lparr>creds = JObj [(''registered'', JBool False)], credFileName = ''auth.json''\<rparr>"
proof -
  have d: "fs_one_file Permitted Permitted ''auth.json'' t [''sess''] = Some (Dir Permitted)" for t
    by (simp add: fs_one_file_def fs_session_def)
  have f: "fs_one_file Permitted Permitted ''auth.json'' t ([''sess''] @ [sanitizeName None @ ''.json''])
             = Some (File Permitted t)" for t
    by (simp add: fs_one_file_def sanitizeName_default)
  have p: "JSON_parse model_externals = parse_BufferJSON" by (simp add: model_externals_def)
  have i: "initAuthCreds model_externals = JObj [(''registered'', JBool False)]"
    by (simp add: model_externals_def)
  show ?thesis
    using falsy_creds_replaced [where ext = model_externals and v = JNull, OF d f [of "''null''"]]
          falsy_creds_replaced [where ext = model_externals and v = "JBool False", OF d f [of "''false''"]]
          falsy_creds_replaced [where ext = model_externals and v = "JNum 0", OF d f [of "''0''"]]
          falsy_creds_replaced [where ext = model_externals and v = "JStr []",
            OF d f [of "[CHR 0x22, CHR 0x22]"]]
    by (simp add: p i parse_falsy sanitizeName_default)
qed

lemma keys_get_single_null:
  "fst (readData ext folder (category @ ''-'' @ id' @ ''.json'') fs) = Inr JNull \<Longrightarrow>
   keys_get ext folder category [id'] fs = (Inr (obj_set Map.empty id' JNull), fs)"
  by (simp add: keys_get_def readData_eq)

lemma keys_set_null:
  "keys_set ext folder [(category, [(id', JNull)])] fs =
     (Inr (), snd (unlink (join folder (fixFileName (category @ ''-'' @ id' @ ''.json''))) fs))"
  by (simp add: keys_set_single task_by_truth_def removeData_eq)

text \<open>
  C6, as amended. For an id other than \<open>__proto__\<close>: when the record's file is absent, or
  its \<open>unlink\<close> succeeds, \<open>set\<close> of \<open>null\<close> for the id is fulfilled and leaves no file, and
  the \<open>get\<close> that follows yields exactly the mapping of the id to \<open>null\<close>.
\<close>

theorem set_null_then_get:
  assumes "id' \<noteq> ''__proto__''"
    and "fs (join folder (fixFileName (category @ ''-'' @ id' @ ''.json''))) = None
         \<or> fst (unlink (join folder (fixFileName (category @ ''-'' @ id' @ ''.json''))) fs) = Inr ()"
  shows "fst (keys_set ext folder [(category, [(id', JNull)])] fs) = Inr ()
    \<and> snd (keys_set ext folder [(category, [(id', JNull)])] fs)
         (join folder (fixFileName (category @ ''-'' @ id' @ ''.json''))) = None
    \<and> keys_get ext folder category [id'] (snd (keys_set ext folder [(category, [(id', JNull)])] fs))
        = (Inr [id' \<mapsto> JNull], snd (keys_set ext folder [(category, [(id', JNull)])] fs))"
proof -
  let ?p = "join folder (fixFileName (category @ ''-'' @ id' @ ''.json''))"
  let ?fs' = "snd (keys_set ext folder [(category, [(id', JNull)])] fs)"
  have fs': "?fs' = snd (unlink ?p fs)" by (simp add: keys_set_null)
  have gone: "?fs' ?p = None"
  proof (cases "fs ?p")
    case None
    then show ?thesis by (simp add: fs' unlink_def)
  next
    case (Some n)
    with assms(2) have "fst (unlink ?p fs) = Inr ()" by simp
    with unlink_fs [of ?p fs "fst (unlink ?p fs)" "snd (unlink ?p fs)"]
    show ?thesis by (simp add: fs')
  qed
  then have "fst (readData ext folder (category @ ''-'' @ id' @ ''.json'') ?fs') = Inr JNull"
    by (simp add: readData_eq readFile_def)
  from keys_get_single_null [OF this] assms(1) gone show ?thesis
    by (simp add: keys_set_null obj_set_def)
qed

theorem set_null_then_get_witness:
  "fst (unlink [''sess'', ''k-1.json''] (fs_one_file Permitted Permitted ''k-1.json'' ''7'')) = Inr ()
   \<and> fst (keys_set model_externals [''sess''] [(''k'', [(''1'', JNull)])]
            (fs_one_file Permitted Permitted ''k-1.json'' ''7'')) = Inr ()
   \<and> fst (keys_get model_externals [''sess''] ''k'' [''1'']
            (snd (keys_set model_externals [''sess''] [(''k'', [(''1'', JNull)])]
                   (fs_one_file Permitted Permitted ''k-1.json'' ''7''))))
       = Inr [''1'' \<mapsto> JNull]"
proof -
  have j: "join [''sess''] (fixFileName (''k'' @ ''-'' @ ''1'' @ ''.json'')) = [''sess'', ''k-1.json'']"
    using join_k1 by simp
  have u: "fst (unlink [''sess'', ''k-1.json''] (fs_one_file Permitted Permitted ''k-1.json'' ''7'')) = Inr ()"
    by (simp add: unlink_def fs_one_file_def fs_session_def)
  have n: "''1'' \<noteq> ''__proto__''" by simp
  from set_null_then_get [of "''1''" "fs_one_file Permitted Permitted ''k-1.json'' ''7''" "[''sess'']" "''k''"
         model_externals, OF n] u
  show ?thesis unfolding j by simp
qed

lemma parse_7: "parse_BufferJSON ''7'' = Inr (JNum 7)"
  by (simp add: parse_BufferJSON_def parse_text_def parse_value.simps
      skip_ws_def is_json_ws_def parse_atom_def parse_number_def is_digit_def read_nat_def
      digit_val_def reviver_def)

text \<open>
  Against C6 as it was stated. In a directory that refuses changes the \<open>unlink\<close> fails,
  \<open>set\<close> is fulfilled all the same, the file stays, and \<open>get\<close> yields the stored value.
  And for the id \<open>__proto__\<close> the mapping \<open>get\<close> yields has no entry.
\<close>

theorem set_null_record_survives:
  "fst (keys_set model_externals [''sess''] [(''k'', [(''1'', JNull)])]
          (fs_one_file Denied Permitted ''k-1.json'' ''7'')) = Inr ()
   \<and> fst (keys_get model_externals [''sess''] ''k'' [''1'']
            (snd (keys_set model_externals [''sess''] [(''k'', [(''1'', JNull)])]
                   (fs_one_file Denied Permitted ''k-1.json'' ''7''))))
       = Inr [''1'' \<mapsto> JNum 7]
   \<and> fst (keys_set model_externals [''sess''] [(''k'', [(''__proto__'', JNull)])]
            (fs_session Permitted)) = Inr ()
   \<and> fst (keys_get model_externals [''sess''] ''k'' [''__proto__'']
            (snd (keys_set model_externals [''sess''] [(''k'', [(''__proto__'', JNull)])]
                   (fs_session Permitted))))
       = Inr Map.empty"
proof -
  have j: "join [''sess''] (fixFileName (''k'' @ ''-'' @ ''1'' @ ''.json'')) = [''sess'', ''k-1.json'']"
    using join_k1 by simp
  have u: "unlink [''sess'', ''k-1.json''] (fs_one_file Denied Permitted ''k-1.json'' ''7'')
             = (Inl (FsError EACCES), fs_one_file Denied Permitted ''k-1.json'' ''7'')"
    by (simp add: unlink_def fs_one_file_def fs_session_def)
  have r: "readFile [''sess'', ''k-1.json''] (fs_one_file Denied Permitted ''k-1.json'' ''7'')
             = (Inr ''7'', fs_one_file Denied Permitted ''k-1.json'' ''7'')"
    by (simp add: readFile_def fs_one_file_def fs_session_def)
  have p: "JSON_parse model_externals ''7'' = Inr (JNum 7)"
    by (simp add: model_externals_def parse_7)
  have g: "fst (readData model_externals [''sess''] (''k'' @ ''-'' @ ''1'' @ ''.json'')
                  (fs_one_file Denied Permitted ''k-1.json'' ''7'')) = Inr (JNum 7)"
    unfolding readData_eq j by (simp add: r p)
  have a: "fst (keys_set model_externals [''sess''] [(''k'', [(''1'', JNull)])]
          (fs_one_file Denied Permitted ''k-1.json'' ''7'')) = Inr ()
   \<and> fst (keys_get model_externals [''sess''] ''k'' [''1'']
            (snd (keys_set model_externals [''sess''] [(''k'', [(''1'', JNull)])]
                   (fs_one_file Denied Permitted ''k-1.json'' ''7''))))
       = Inr [''1'' \<mapsto> JNum 7]"
    unfolding keys_set_null j u
    using g by (simp add: keys_get_def obj_set_def readData_eq)
  have jp: "join [''sess''] (fixFileName (''k'' @ ''-'' @ ''__proto__'' @ ''.json''))
              = [''sess'', ''k-__proto__.json'']"
    by (simp add: join_def fixFileName_def replace_char_def)
  have up: "unlink [''sess'', ''k-__proto__.json''] (fs_session Permitted)
              = (Inl (FsError ENOENT), fs_session Permitted)"
    by (simp add: unlink_def fs_session_def)
  have b: "fst (keys_set model_externals [''sess''] [(''k'', [(''__proto__'', JNull)])]
            (fs_session Permitted)) = Inr ()
   \<and> fst (keys_get model_externals [''sess''] ''k'' [''__proto__'']
            (snd (keys_set model_externals [''sess''] [(''k'', [(''__proto__'', JNull)])]
                   (fs_session Permitted))))
       = Inr Map.empty"
    unfolding keys_set_null jp up
    by (simp add: keys_get_def obj_set_def readData_eq jp readFile_def fs_session_def)
  from a b show ?thesis by blast
qed

subsection \<open>The text of a value and its parse\<close>





lemma of_char_lt_256: "(of_char c :: nat) < 256"
  by (metis char_of_char mod_less_divisor of_char_of zero_less_numeral)




lemma quote_Cons: "quote s = CHR 0x22 # tl (quote s)"
  by (simp add: quote_def)










 
























lemma delim_skip: "delim rest \<Longrightarrow> skip_ws rest = rest"
  by (cases rest) (auto simp: delim_def skip_ws_def is_json_ws_def)





































end
